theory Spec2Isabelle
  imports Complex_Main
begin

section \<open>Errors raised by the test engine\<close>

text \<open>
  Every exception the modelled functions can raise is a constructor. The names are the
  Python class names of the source. \<open>ValueError\<close> is the bare \<open>ValueError()\<close> that
  \<open>longest_runs\<close> raises for a sequence shorter than 128 elements,
  \<open>NotImplementedError\<close> the one it raises for a blocksize without a probability table.
\<close>

datatype error =
    ValueError
  | NotImplementedError
  | IndexError
  | KeyError
  | TypeError
  | ZeroDivisionError
  | StopIteration
  | NonBinaryTruncatedSequenceError
  | TemplateContainsElementsNotInSequenceError

section \<open>Runs (stattests/runs.py)\<close>

text \<open>
  The dataclass \<open>Run\<close>: a value and the length of the stretch. The field names carry a
  prefix because \<open>value\<close> and \<open>length\<close> are taken in Isabelle.
\<close>

record 'a Run =
  run_value :: 'a
  run_length :: nat

text \<open>
  The \<open>for\<close> loop of \<open>asruns\<close> with its \<open>else\<close> branch: a value equal to the current
  run's value lengthens the run, any other value yields the current run and opens a new
  one of length 1 (the dataclass default); when the series is exhausted the current run
  is yielded. The generator is materialised as the list of the runs it yields.
\<close>

fun asruns_loop :: "'a Run \<Rightarrow> 'a list \<Rightarrow> 'a Run list" where
  "asruns_loop current_run [] = [current_run]"
| "asruns_loop current_run (v # rest) =
     (if v = run_value current_run
      then asruns_loop (current_run\<lparr>run_length := run_length current_run + 1\<rparr>) rest
      else current_run # asruns_loop \<lparr>run_value = v, run_length = 1\<rparr> rest)"

text \<open>
  \<open>asruns\<close>: \<open>series.iloc[0]\<close> raises \<open>IndexError\<close> on an empty series; otherwise the
  loop starts from a run of the first value with length 0 and scans the whole series.
\<close>

definition asruns :: "'a list \<Rightarrow> error + 'a Run list" where
  "asruns series =
     (case series of
        [] \<Rightarrow> Inl IndexError
      | first_value # _ \<Rightarrow> Inr (asruns_loop \<lparr>run_value = first_value, run_length = 0\<rparr> series))"

text \<open>The stretch of the series a run stands for.\<close>

definition expand_run :: "'a Run \<Rightarrow> 'a list" where
  "expand_run r = replicate (run_length r) (run_value r)"

section \<open>Test results\<close>

text \<open>
  The p-value of every test is the value of a special function of SciPy or of Python's
  math module, computed in floating point. The embedding keeps the call itself:
  \<open>Erfc a b\<close> stands for \<open>erfc(a / b)\<close>, with the dividend and the divisor kept apart
  because the divisor can be zero, \<open>Gammaincc a x\<close> stands for \<open>gammaincc(a, x)\<close>, and
  \<open>GammainccSum a terms\<close> stands for \<open>gammaincc(a, s / 2)\<close> where \<open>s\<close> is the sum of the
  quotients dividend / divisor of the pairs in \<open>terms\<close>, again kept apart because a
  divisor can be zero. Floating-point numbers are modelled as exact reals.
\<close>

datatype special =
    Erfc real real
  | Gammaincc real real
  | GammainccSum real "(real \<times> real) list"

record TestResult =
  statistic :: real
  p :: special

section \<open>The runs test (stattests/runs.py)\<close>

text \<open>
  \<open>series.value_counts()[candidate]\<close>: the count of the candidate; a value that does not
  occur in the series is not a key of the counts and the lookup raises \<open>KeyError\<close>.
\<close>

definition value_count :: "'a list \<Rightarrow> 'a \<Rightarrow> error + nat" where
  "value_count series candidate =
     (if candidate \<in> set series then Inr (count_list series candidate) else Inl KeyError)"

text \<open>
  The body of \<open>runs\<close> (the decorators \<open>elected\<close> and \<open>binary_stattest\<close> are not among
  the sources; the candidate is an argument). The body has no check of the proportion:
  the quotient handed to \<open>erfc\<close> is formed whatever its divisor is. The count comes out
  of pandas as a NumPy integer, so the quotient is a NumPy division, which gives
  infinity or NaN with a warning for a zero divisor and raises nothing.
\<close>

definition runs :: "'a list \<Rightarrow> 'a \<Rightarrow> error + TestResult" where
  "runs series candidate =
     (let n = length series in
      case value_count series candidate of
        Inl e \<Rightarrow> Inl e
      | Inr ncandidates \<Rightarrow>
          let propcandidates = real ncandidates / real n in
          (case asruns series of
             Inl e \<Rightarrow> Inl e
           | Inr rs \<Rightarrow>
               let nruns = length rs in
               Inr \<lparr>statistic = real nruns,
                    p = Erfc \<bar>real nruns - 2 * real ncandidates * (1 - propcandidates)\<bar>
                             (2 * sqrt (2 * real n) * propcandidates * (1 - propcandidates))\<rparr>))"

section \<open>The longest-run-in-block test (stattests/runs.py)\<close>

text \<open>
  Modelled from the spec: \<open>chunks\<close> and \<open>rawblocks\<close> of \<open>rngtest.stattests.common\<close> are
  not among the sources. A sequence of length n yields \<open>n // blocksize\<close> blocks of
  \<open>blocksize\<close> consecutive elements each; the trailing remainder is discarded.
\<close>

definition blocks :: "'a list \<Rightarrow> nat \<Rightarrow> 'a list list" where
  "blocks series blocksize =
     map (\<lambda>i. take blocksize (drop (i * blocksize) series)) [0..<length series div blocksize]"

text \<open>
  The choice of the test constants by the length of the series: blocksize, nblocks and
  the boundaries of the frequency bins. Below 128 elements the function raises.
\<close>

definition select_regime :: "nat \<Rightarrow> error + nat \<times> nat \<times> nat list" where
  "select_regime n =
     (if n < 128 then Inl ValueError
      else if n < 6272 then Inr (8, 16, [1, 2, 3, 4])
      else if n < 750000 then Inr (128, 49, [4, 5, 6, 7, 8, 9])
      else Inr (10 ^ 4, 75, [10, 11, 12, 13, 14, 15, 16]))"

text \<open>The \<open>for\<close> loop of \<open>freqbin\<close> over \<open>enumerate(midranges, 1)\<close>; \<open>None\<close> when it falls through.\<close>

fun freqbin_search :: "nat \<Rightarrow> nat list \<Rightarrow> nat \<Rightarrow> nat option" where
  "freqbin_search len [] i = None"
| "freqbin_search len (binlength # rest) i =
     (if len = binlength then Some i else freqbin_search len rest (i + 1))"

text \<open>
  \<open>freqbin\<close>, with the list of boundaries it closes over as first argument (never empty
  in \<open>longest_runs\<close>). The result \<open>None\<close> is Python's \<open>None\<close>, returned when no branch
  returns a bin.
\<close>

definition freqbin :: "nat list \<Rightarrow> nat \<Rightarrow> nat option" where
  "freqbin freqbinranges len =
     (let minrange = hd freqbinranges;
          midranges = butlast (tl freqbinranges);
          maxrange = last freqbinranges
      in if len \<le> minrange then Some 0
         else if minrange < len \<and> len < maxrange then freqbin_search len midranges 1
         else if len \<ge> maxrange then Some (length freqbinranges)
         else None)"

text \<open>
  The table of bin probabilities per blocksize; a blocksize that is not a key raises
  \<open>NotImplementedError\<close> in \<open>longest_runs\<close>.
\<close>

definition probabilities :: "nat \<rightharpoonup> real list" where
  "probabilities =
     [8 \<mapsto> [0.2148, 0.3672, 0.2305, 0.1875],
      128 \<mapsto> [0.1174, 0.2430, 0.2493, 0.1752, 0.1027, 0.1124],
      512 \<mapsto> [0.1170, 0.2460, 0.2523, 0.1755, 0.1027, 0.1124],
      1000 \<mapsto> [0.1307, 0.2437, 0.2452, 0.1714, 0.1002, 0.1088],
      10000 \<mapsto> [0.0882, 0.2092, 0.2483, 0.1933, 0.1208, 0.0675, 0.0727]]"

text \<open>The longest run among the candidate's runs of one chunk, 0 when there is none.\<close>

fun maxlen_loop :: "nat \<Rightarrow> 'a Run list \<Rightarrow> nat" where
  "maxlen_loop maxlen [] = maxlen"
| "maxlen_loop maxlen (run # rest) =
     (if run_length run > maxlen then maxlen_loop (run_length run) rest
      else maxlen_loop maxlen rest)"

fun collect_maxlengths :: "'a \<Rightarrow> 'a list list \<Rightarrow> error + nat list" where
  "collect_maxlengths candidate [] = Inr []"
| "collect_maxlengths candidate (chunk # rest) =
     (case asruns chunk of
        Inl e \<Rightarrow> Inl e
      | Inr rs \<Rightarrow>
          (case collect_maxlengths candidate rest of
             Inl e \<Rightarrow> Inl e
           | Inr maxlengths \<Rightarrow>
               Inr (maxlen_loop 0 (filter (\<lambda>run. run_value run = candidate) rs) # maxlengths)))"

text \<open>
  The tallying loop \<open>freqbins[freqbin(length)] += 1\<close>: indexing a list with \<open>None\<close> raises
  \<open>TypeError\<close>, and with an index that is not below the length of the list \<open>IndexError\<close>
  (the index is never negative).
\<close>

fun tally :: "nat list \<Rightarrow> nat list \<Rightarrow> nat list \<Rightarrow> error + nat list" where
  "tally freqbinranges freqbins [] = Inr freqbins"
| "tally freqbinranges freqbins (len # rest) =
     (case freqbin freqbinranges len of
        None \<Rightarrow> Inl TypeError
      | Some i \<Rightarrow>
          if i < length freqbins
          then tally freqbinranges (freqbins[i := freqbins ! i + 1]) rest
          else Inl IndexError)"

text \<open>
  The body of \<open>longest_runs\<close>. Every probability of the table is positive, so the
  quotients of the statistic have non-zero divisors.
\<close>

definition longest_runs :: "'a list \<Rightarrow> 'a \<Rightarrow> error + TestResult" where
  "longest_runs series candidate =
     (case select_regime (length series) of
        Inl e \<Rightarrow> Inl e
      | Inr (blocksize, nblocks, freqbinranges) \<Rightarrow>
          let df = real (length freqbinranges) - 1 in
          (case probabilities blocksize of
             None \<Rightarrow> Inl NotImplementedError
           | Some maxlenprobabilities \<Rightarrow>
               (case collect_maxlengths candidate (blocks series blocksize) of
                  Inl e \<Rightarrow> Inl e
                | Inr maxlengths \<Rightarrow>
                    (case tally freqbinranges (map (\<lambda>_. 0) freqbinranges) maxlengths of
                       Inl e \<Rightarrow> Inl e
                     | Inr freqbins \<Rightarrow>
                         let partials =
                               map (\<lambda>(prob, bincount).
                                      (real bincount - real nblocks * prob)\<^sup>2 / (real nblocks * prob))
                                   (zip maxlenprobabilities freqbins);
                             stat = sum_list partials
                         in Inr \<lparr>statistic = stat, p = Gammaincc (df / 2) (stat / 2)\<rparr>))))"

section \<open>Template matching (stattests/_template.py)\<close>

text \<open>
  The template that the decorator \<open>template\<close> derives when none is given: the first
  element of \<open>product(series.unique(), repeat=template_size)\<close>, that is the first value
  of the series repeated \<open>template_size = min(floor(sqrt(n)), 9)\<close> times (the empty
  template for the empty series).
\<close>

definition default_template :: "'a list \<Rightarrow> 'a list" where
  "default_template series =
     (case series of
        [] \<Rightarrow> []
      | v # _ \<Rightarrow> replicate (min (nat \<lfloor>sqrt (real (length series))\<rfloor>) 9) v)"

text \<open>
  The test \<open>all(x == y for x, y in zip(window, template_tup))\<close>. \<open>zip\<close> stops at the
  shorter of its arguments, so a window shorter than the template is compared with the
  template's first elements only.
\<close>

definition window_matches :: "'a list \<Rightarrow> 'a list \<Rightarrow> bool" where
  "window_matches window template_tup = list_all (\<lambda>(x, y). x = y) (zip window template_tup)"

text \<open>The slice \<open>block_tup[pointer : pointer + template_size]\<close>; it is cut at the end of the block.\<close>

definition window_at :: "'a list \<Rightarrow> nat \<Rightarrow> nat \<Rightarrow> 'a list" where
  "window_at block_tup pointer template_size = take template_size (drop pointer block_tup)"

text \<open>
  The \<open>while\<close> loop of \<open>non_overlapping_template_matching\<close> over one block, from the
  state \<open>(pointer, matches)\<close>. With an empty template the pointer does not move after a
  match and the loop does not end: the result \<open>None\<close> is a loop that does not return.
\<close>

partial_function (option) nonoverlapping_scan ::
  "'a list \<Rightarrow> 'a list \<Rightarrow> nat \<Rightarrow> nat \<Rightarrow> nat option" where
  "nonoverlapping_scan block_tup template_tup pointer matches =
     (if int pointer < int (length block_tup) - int (length template_tup)
      then (if window_matches (window_at block_tup pointer (length template_tup)) template_tup
            then nonoverlapping_scan block_tup template_tup
                   (pointer + length template_tup) (matches + 1)
            else nonoverlapping_scan block_tup template_tup (pointer + 1) matches)
      else Some matches)"

declare nonoverlapping_scan.simps [code]

text \<open>
  The claimed scan, after the words of the specification: greedy, over every start
  position at which the template fits inside the block, that is positions 0 to
  \<open>blocksize - k\<close> inclusive.
\<close>

partial_function (option) greedy_scan_spec ::
  "'a list \<Rightarrow> 'a list \<Rightarrow> nat \<Rightarrow> nat \<Rightarrow> nat option" where
  "greedy_scan_spec block_tup template_tup pointer matches =
     (if int pointer \<le> int (length block_tup) - int (length template_tup)
      then (if window_at block_tup pointer (length template_tup) = template_tup
            then greedy_scan_spec block_tup template_tup
                   (pointer + length template_tup) (matches + 1)
            else greedy_scan_spec block_tup template_tup (pointer + 1) matches)
      else Some matches)"

declare greedy_scan_spec.simps [code]

text \<open>Python's \<open>//\<close> on integers: floor division, \<open>ZeroDivisionError\<close> for a zero divisor.\<close>

definition py_floordiv :: "int \<Rightarrow> int \<Rightarrow> error + int" where
  "py_floordiv a b = (if b = 0 then Inl ZeroDivisionError else Inr (a div b))"

text \<open>
  The dictionary \<open>recommendations\<close> of \<open>non_overlapping_template_matching\<close>, in insertion
  order. Building it evaluates \<open>n // blocksize\<close>.
\<close>

definition recommendations :: "int \<Rightarrow> int \<Rightarrow> int \<Rightarrow> error + (string \<times> bool) list" where
  "recommendations n nblocks blocksize =
     (case py_floordiv n blocksize of
        Inl e \<Rightarrow> Inl e
      | Inr q \<Rightarrow>
          Inr [(''nblocks <= 100'', nblocks \<le> 100),
               (''blocksize > 0.01 * n'', real_of_int blocksize > 0.01 * real_of_int n),
               (''nblocks == n // blocksize'', nblocks = q)])"

text \<open>
  The loop over the recommendations: one call of \<open>warn\<close> for every entry that is
  \<open>False\<close>. The warnings issued are returned as the list of their messages.
\<close>

definition issue_warnings :: "(string \<times> bool) list \<Rightarrow> string list" where
  "issue_warnings recs =
     map (\<lambda>(rec, success). ''Input parameters fail recommendation '' @ rec)
         (filter (\<lambda>(rec, success). \<not> success) recs)"

record 'a NonOverlappingTemplateMatchingTestResult = TestResult +
  res_template :: "'a list"
  res_matches_expect :: real
  res_variance :: real
  res_block_matches :: "nat list"
  res_match_diffs :: "real list"

text \<open>
  The part of \<open>non_overlapping_template_matching\<close> after the recommendations: expected
  matches, variance, the scan of every block, statistic and p-value. The quotients
  \<open>diff ** 2 / variance\<close> are quotients of floats and raise \<open>ZeroDivisionError\<close> for a
  zero variance. \<open>None\<close> is a scan that does not return.
\<close>

definition nonoverlapping_statistics ::
  "'a list list \<Rightarrow> 'a list \<Rightarrow> int \<Rightarrow> int \<Rightarrow>
   (error + 'a NonOverlappingTemplateMatchingTestResult) option" where
  "nonoverlapping_statistics block_tups template_tup nblocks blocksize =
     (let template_size = length template_tup;
          matches_expect =
            (real_of_int blocksize - real template_size + 1) / 2 ^ template_size;
          variance =
            real_of_int blocksize *
              (1 / 2 ^ template_size - (2 * real template_size - 1) / 2 ^ (2 * template_size))
      in case those (map (\<lambda>block_tup. nonoverlapping_scan block_tup template_tup 0 0) block_tups) of
           None \<Rightarrow> None
         | Some block_matches \<Rightarrow>
             let match_diffs = map (\<lambda>matches. real matches - matches_expect) block_matches in
             if match_diffs \<noteq> [] \<and> variance = 0 then Some (Inl ZeroDivisionError)
             else
               let stat = sum_list (map (\<lambda>diff. diff\<^sup>2 / variance) match_diffs) in
               Some (Inr \<lparr>statistic = stat,
                          p = Gammaincc (real_of_int nblocks / 2) (stat / 2),
                          res_template = template_tup,
                          res_matches_expect = matches_expect,
                          res_variance = variance,
                          res_block_matches = block_matches,
                          res_match_diffs = match_diffs\<rparr>))"

text \<open>
  The body of \<open>non_overlapping_template_matching\<close>, with the warnings it issues beside
  its result. \<open>rawblocks\<close> is not among the sources and is an argument: the function that
  cuts the series into blocks of \<open>blocksize\<close> elements.
\<close>

definition non_overlapping_template_matching ::
  "('a list \<Rightarrow> int \<Rightarrow> 'a list list) \<Rightarrow> 'a list \<Rightarrow> 'a list \<Rightarrow> int \<Rightarrow>
   (error + string list \<times> 'a NonOverlappingTemplateMatchingTestResult) option" where
  "non_overlapping_template_matching rawblocks series template_tup nblocks =
     (let n = int (length series) in
      case py_floordiv n nblocks of
        Inl e \<Rightarrow> Some (Inl e)
      | Inr blocksize \<Rightarrow>
          (case recommendations n nblocks blocksize of
             Inl e \<Rightarrow> Some (Inl e)
           | Inr recs \<Rightarrow>
               let warnings = issue_warnings recs in
               (case nonoverlapping_statistics (rawblocks series blocksize) template_tup
                       nblocks blocksize of
                  None \<Rightarrow> None
                | Some (Inl e) \<Rightarrow> Some (Inl e)
                | Some (Inr result) \<Rightarrow> Some (Inr (warnings, result)))))"

text \<open>
  The \<open>for\<close> loop of \<open>overlapping_template_matching\<close> over one block: the pointer takes
  every value of \<open>range(blocksize)\<close> and a matching window adds one.
\<close>

definition overlapping_matches :: "'a list \<Rightarrow> 'a list \<Rightarrow> int \<Rightarrow> nat" where
  "overlapping_matches block_tup template_tup blocksize =
     fold (\<lambda>pointer matches.
             if window_matches (window_at block_tup pointer (length template_tup)) template_tup
             then matches + 1 else matches)
          [0..<nat blocksize] 0"

text \<open>
  The claimed count, after the words of the specification: the number of start
  positions from 0 to \<open>blocksize - k\<close> at which all k elements of the template equal the
  elements of the block.
\<close>

definition full_matches_spec :: "'a list \<Rightarrow> 'a list \<Rightarrow> nat" where
  "full_matches_spec block_tup template_tup =
     length (filter (\<lambda>pointer. window_at block_tup pointer (length template_tup) = template_tup)
               [0..<nat (int (length block_tup) - int (length template_tup) + 1)])"

text \<open>
  The first part of \<open>overlapping_template_matching\<close>: the matches of every block and
  their tallies in the six bins 0, 1, 2, 3, 4 and 5 or more.
\<close>

definition overlapping_block_matches ::
  "('a list \<Rightarrow> int \<Rightarrow> 'a list list) \<Rightarrow> 'a list \<Rightarrow> 'a list \<Rightarrow> int \<Rightarrow> error + nat list" where
  "overlapping_block_matches rawblocks series template_tup nblocks =
     (case py_floordiv (int (length series)) nblocks of
        Inl e \<Rightarrow> Inl e
      | Inr blocksize \<Rightarrow>
          Inr (map (\<lambda>block_tup. overlapping_matches block_tup template_tup blocksize)
                 (rawblocks series blocksize)))"

definition overlapping_tallies :: "nat list \<Rightarrow> nat list" where
  "overlapping_tallies block_matches =
     fold (\<lambda>matches tallies. tallies[min matches 5 := tallies ! min matches 5 + 1])
          block_matches (replicate 6 0)"

text \<open>
  The reference probabilities of the six bins. \<open>hyp1f1\<close> is the confluent hypergeometric
  function of \<open>scipy.special\<close>, a library function, and is an argument.
\<close>

definition overlapping_probabilities ::
  "(real \<Rightarrow> real \<Rightarrow> real \<Rightarrow> real) \<Rightarrow> int \<Rightarrow> nat \<Rightarrow> real list" where
  "overlapping_probabilities hyp1f1 blocksize template_size =
     (let lambda = (real_of_int blocksize - real template_size + 1) / 2 ^ template_size;
          eta = lambda / 2
      in map (\<lambda>x. ((eta * exp (- 2 * eta)) / 2 ^ x) * hyp1f1 (real x + 1) 2 eta) [0..<6])"

text \<open>
  The result of \<open>overlapping_template_matching\<close>. Its statistic is the sum of the
  quotients \<open>(tally - nblocks * probability) ** 2 / (nblocks * probability)\<close>, which are
  NumPy quotients (\<open>hyp1f1\<close> returns a NumPy float): a zero divisor raises nothing and
  gives infinity, or NaN for 0.0 / 0.0. The statistic is kept as the list of the pairs
  of dividend and divisor.
\<close>

record OverlappingTemplateMatchingTestResult =
  ov_statistic :: "(real \<times> real) list"
  ov_p :: special

text \<open>
  The body of \<open>overlapping_template_matching\<close>; \<open>rawblocks\<close> and \<open>hyp1f1\<close> are
  arguments.
\<close>

definition overlapping_template_matching ::
  "(real \<Rightarrow> real \<Rightarrow> real \<Rightarrow> real) \<Rightarrow> ('a list \<Rightarrow> int \<Rightarrow> 'a list list) \<Rightarrow>
   'a list \<Rightarrow> 'a list \<Rightarrow> int \<Rightarrow> error + OverlappingTemplateMatchingTestResult" where
  "overlapping_template_matching hyp1f1 rawblocks series template_tup nblocks =
     (case py_floordiv (int (length series)) nblocks of
        Inl e \<Rightarrow> Inl e
      | Inr blocksize \<Rightarrow>
          let template_size = length template_tup;
              block_matches =
                map (\<lambda>block_tup. overlapping_matches block_tup template_tup blocksize)
                  (rawblocks series blocksize);
              tallies = overlapping_tallies block_matches;
              probabilities = overlapping_probabilities hyp1f1 blocksize template_size;
              terms =
                map (\<lambda>(tally, probability).
                       ((real tally - real_of_int nblocks * probability)\<^sup>2,
                        real_of_int nblocks * probability))
                    (zip tallies probabilities);
              df = real (length tallies) - 1
          in Inr \<lparr>ov_statistic = terms, ov_p = GammainccSum (df / 2) terms\<rparr>)"

section \<open>The spectral test (randtests/fourier.py and _randtests/fourier.py)\<close>

text \<open>\<open>series.nunique()\<close>: the number of distinct values.\<close>

definition nunique :: "'a list \<Rightarrow> nat" where
  "nunique series = length (remdups series)"

text \<open>
  The forward discrete Fourier transform that \<open>numpy.fft.fft\<close> and \<open>scipy.fft.fft\<close>
  compute, in exact arithmetic.
\<close>

definition dft :: "real list \<Rightarrow> complex list" where
  "dft xs =
     map (\<lambda>k. \<Sum>j = 0..<length xs.
                 complex_of_real (xs ! j) * cis (- 2 * pi * real j * real k / real (length xs)))
         [0..<length xs]"

text \<open>
  \<open>series.map\<close> with a dictionary gives NaN for a value that is not a key; NaN is
  \<open>None\<close>. A transform of a signal that holds NaN is modelled as NaN at every frequency,
  and a comparison with NaN is false. The library transform raises \<open>ValueError\<close> for a
  signal of zero points; the callers below carry that check.
\<close>

definition fft :: "real option list \<Rightarrow> complex option list" where
  "fft array = (case those array of Some xs \<Rightarrow> map Some (dft xs) | None \<Rightarrow> map (\<lambda>_. None) array)"

definition count_below :: "real \<Rightarrow> real option list \<Rightarrow> nat" where
  "count_below threshold peaks =
     length (filter (\<lambda>peak. case peak of None \<Rightarrow> False | Some m \<Rightarrow> m < threshold) peaks)"

record DiscreteFourierTransformTestResult = TestResult +
  dft_nbelow_expected :: real
  dft_nbelow :: nat
  dft_diff :: real

text \<open>
  The body of \<open>discrete_fourier_transform\<close> (rngtest). \<open>n\<close> is the length of the series
  as it is passed in; an odd-length series loses its last element, and the names
  \<open>series\<close> below stand for the series after that step. The trough is the first value
  of the series that differs from the candidate; \<open>next\<close> raises \<open>StopIteration\<close> when
  there is none.
\<close>

definition discrete_fourier_transform ::
  "'a list \<Rightarrow> 'a \<Rightarrow> error + DiscreteFourierTransformTestResult" where
  "discrete_fourier_transform series0 candidate =
     (let n = length series0 in
      if n mod 2 \<noteq> 0 \<and> nunique (butlast series0) \<noteq> 2 then Inl NonBinaryTruncatedSequenceError
      else
        let series = (if n mod 2 \<noteq> 0 then butlast series0 else series0);
            threshold = sqrt (ln (1 / 0.05) * real n);
            nbelow_expected = 0.95 * real n / 2;
            peak = candidate
        in case find (\<lambda>v. v \<noteq> candidate) series of
             None \<Rightarrow> Inl StopIteration
           | Some trough \<Rightarrow>
               let oscillations = map [peak \<mapsto> 1, trough \<mapsto> - 1] series in
               if oscillations = [] then Inl ValueError
               else
                 let fourier = fft oscillations;
                     half_fourier = take (n div 2) fourier;
                     peaks = map (map_option cmod) half_fourier;
                     nbelow = count_below threshold peaks;
                     diff = real nbelow - nbelow_expected;
                     normdiff = diff / sqrt (real n * 0.95 * 0.05 / 4)
                 in Inr \<lparr>statistic = normdiff,
                         p = Erfc \<bar>normdiff\<bar> (sqrt 2),
                         dft_nbelow_expected = nbelow_expected,
                         dft_nbelow = nbelow,
                         dft_diff = diff\<rparr>)"

text \<open>
  Modelled from the spec: \<open>check_recommendations\<close> of \<open>coinflip._randtests.common.core\<close>
  is not among the sources. It takes a mapping from the name of a condition to a
  boolean and records every entry that is false; nothing is raised.
\<close>

definition check_recommendations :: "(string \<times> bool) list \<Rightarrow> string list" where
  "check_recommendations recs = map fst (filter (\<lambda>(rec, success). \<not> success) recs)"

record 'a SpectralTestResult = TestResult +
  spec_failures :: "string list"
  spec_heads :: 'a
  spec_tails :: 'a
  spec_nbelow_expect :: real
  spec_nbelow :: nat
  spec_diff :: real

text \<open>
  The body of \<open>spectral\<close> (coinflip). The progress calls on \<open>ctx\<close> do nothing to the
  result and are left out. The name of the recommendation is the source's string
  ``n, greater-or-equal sign, 1000'' in UTF-8.
\<close>

definition spectral :: "'a list \<Rightarrow> 'a \<Rightarrow> 'a \<Rightarrow> error + 'a SpectralTestResult" where
  "spectral series0 heads tails =
     (let n = length series0;
          failures =
            check_recommendations
              [(''n '' @ [CHR 0xE2, CHR 0x89, CHR 0xA5] @ '' 1000'', n \<ge> 1000)]
      in if n mod 2 \<noteq> 0 \<and> nunique (butlast series0) \<noteq> 2 then Inl NonBinaryTruncatedSequenceError
         else
           let series = (if n mod 2 \<noteq> 0 then butlast series0 else series0);
               threshold = sqrt (ln (1 / 0.05) * real n);
               nbelow_expect = 0.95 * real n / 2;
               oscillations = map [heads \<mapsto> 1, tails \<mapsto> - 1] series
           in if oscillations = [] then Inl ValueError
              else
                let fourier = fft oscillations;
                    half_fourier = take (n div 2) fourier;
                    peaks = map (map_option cmod) half_fourier;
                    nbelow = count_below threshold peaks;
                    diff = real nbelow - nbelow_expect;
                    normdiff = diff / sqrt (real n * 0.95 * 0.05 / 4)
                in Inr \<lparr>statistic = normdiff,
                        p = Erfc \<bar>normdiff\<bar> (sqrt 2),
                        spec_failures = failures,
                        spec_heads = heads,
                        spec_tails = tails,
                        spec_nbelow_expect = nbelow_expect,
                        spec_nbelow = nbelow,
                        spec_diff = diff\<rparr>)"

section \<open>The value of p\<close>

text \<open>
  The dividend and divisor pairs of a statistic all have a non-zero divisor, so that
  every quotient is a finite number.
\<close>

definition finite_quotients :: "(real \<times> real) list \<Rightarrow> bool" where
  "finite_quotients terms = list_all (\<lambda>(dividend, divisor). divisor \<noteq> 0) terms"

text \<open>
  The p-value a symbolic call stands for, given the two special functions \<open>erfc\<close> and
  \<open>gammaincc\<close> as real functions. It is the value of the source's call when every
  divisor is non-zero (\<open>finite_p\<close>); with a zero divisor the source computes with
  infinity or NaN, which the real quotient does not show.
\<close>

fun p_value :: "(real \<Rightarrow> real) \<Rightarrow> (real \<Rightarrow> real \<Rightarrow> real) \<Rightarrow> special \<Rightarrow> real" where
  "p_value erfc gammaincc (Erfc a b) = erfc (a / b)"
| "p_value erfc gammaincc (Gammaincc a x) = gammaincc a x"
| "p_value erfc gammaincc (GammainccSum a terms) =
     gammaincc a (sum_list (map (\<lambda>(dividend, divisor). dividend / divisor) terms) / 2)"

fun finite_p :: "special \<Rightarrow> bool" where
  "finite_p (Erfc a b) = (b \<noteq> 0)"
| "finite_p (Gammaincc a x) = True"
| "finite_p (GammainccSum a terms) = finite_quotients terms"

text \<open>
  The arguments on which the special functions are documented to take their values in
  [0, 1]: a quotient of a non-negative dividend and a positive divisor for \<open>erfc\<close>, a
  positive \<open>a\<close> and a non-negative \<open>x\<close> for \<open>gammaincc(a, x)\<close>.
\<close>

fun unit_domain :: "special \<Rightarrow> bool" where
  "unit_domain (Erfc a b) = (0 \<le> a \<and> 0 < b)"
| "unit_domain (Gammaincc a x) = (0 < a \<and> 0 \<le> x)"
| "unit_domain (GammainccSum a terms) =
     (0 < a \<and> list_all (\<lambda>(dividend, divisor). 0 \<le> dividend \<and> 0 < divisor) terms)"

text \<open>
  The documented ranges of the two special functions: \<open>erfc\<close> takes values in [0, 1] on
  the non-negative reals, \<open>gammaincc(a, x)\<close> takes values in [0, 1] for positive \<open>a\<close> and
  non-negative \<open>x\<close>.
\<close>

definition erfc_range :: "(real \<Rightarrow> real) \<Rightarrow> bool" where
  "erfc_range erfc = (\<forall>x. 0 \<le> x \<longrightarrow> 0 \<le> erfc x \<and> erfc x \<le> 1)"

definition gammaincc_range :: "(real \<Rightarrow> real \<Rightarrow> real) \<Rightarrow> bool" where
  "gammaincc_range gammaincc =
     (\<forall>a x. 0 < a \<longrightarrow> 0 \<le> x \<longrightarrow> 0 \<le> gammaincc a x \<and> gammaincc a x \<le> 1)"

section \<open>Properties of the run decomposition\<close>

lemma asruns_loop_nonempty: "asruns_loop c xs \<noteq> []"
  by (induction xs arbitrary: c) auto

lemma asruns_loop_hd: "run_value (hd (asruns_loop c xs)) = run_value c"
  by (induction xs arbitrary: c) auto

lemma asruns_loop_expand:
  "concat (map expand_run (asruns_loop c xs)) = replicate (run_length c) (run_value c) @ xs"
proof (induction xs arbitrary: c)
  case Nil
  show ?case by (simp add: expand_run_def)
next
  case (Cons v rest)
  show ?case
  proof (cases "v = run_value c")
    case True
    then show ?thesis
      using Cons.IH [of "c\<lparr>run_length := run_length c + 1\<rparr>"]
      by (simp add: replicate_append_same)
  next
    case False
    then show ?thesis
      using Cons.IH [of "\<lparr>run_value = v, run_length = 1\<rparr>"]
      by (simp add: expand_run_def)
  qed
qed

lemma asruns_loop_sum:
  "sum_list (map run_length (asruns_loop c xs)) = run_length c + length xs"
  by (induction xs arbitrary: c) auto

lemma asruns_loop_distinct_adj: "distinct_adj (map run_value (asruns_loop c xs))"
proof (induction xs arbitrary: c)
  case Nil
  show ?case by simp
next
  case (Cons v rest)
  show ?case
  proof (cases "v = run_value c")
    case True
    then show ?thesis using Cons.IH by simp
  next
    case False
    let ?new = "\<lparr>run_value = v, run_length = 1\<rparr>"
    obtain r rs where eq: "asruns_loop ?new rest = r # rs"
      using asruns_loop_nonempty [of ?new rest] by (cases "asruns_loop ?new rest") auto
    have "run_value r = v"
      using asruns_loop_hd [of ?new rest] eq by simp
    moreover have "distinct_adj (map run_value (r # rs))"
      using Cons.IH [of ?new] eq by simp
    ultimately show ?thesis using False eq by simp
  qed
qed

lemma asruns_loop_positive:
  "1 \<le> run_length c \<or> (xs \<noteq> [] \<and> hd xs = run_value c) \<Longrightarrow>
   list_all (\<lambda>r. 1 \<le> run_length r) (asruns_loop c xs)"
proof (induction xs arbitrary: c)
  case Nil
  then show ?case by simp
next
  case (Cons v rest)
  show ?case
  proof (cases "v = run_value c")
    case True
    then show ?thesis
      using Cons.IH [of "c\<lparr>run_length := run_length c + 1\<rparr>"] by simp
  next
    case False
    then have "1 \<le> run_length c" using Cons.prems by simp
    then show ?thesis
      using False Cons.IH [of "\<lparr>run_value = v, run_length = 1\<rparr>"] by simp
  qed
qed

lemma asruns_loop_uniform:
  "list_all (\<lambda>x. x = run_value c) xs \<Longrightarrow>
   asruns_loop c xs = [c\<lparr>run_length := run_length c + length xs\<rparr>]"
  by (induction xs arbitrary: c) auto

text \<open>
  Claim C9. For every non-empty sequence, \<open>asruns\<close> yields a list of runs in which every
  run has length at least 1, neighbouring runs carry different values, the run lengths
  sum to the length of the sequence, and writing every run out as its stretch of equal
  values gives the sequence back (so the runs are its maximal stretches of identical
  values). A sequence of length 1 yields the single run of length 1, and a sequence whose
  elements are all equal yields the single run spanning the whole sequence.
\<close>

theorem asruns_maximal_stretches:
  assumes "series \<noteq> []"
  shows "\<exists>rs. asruns series = Inr rs
           \<and> list_all (\<lambda>r. 1 \<le> run_length r) rs
           \<and> distinct_adj (map run_value rs)
           \<and> sum_list (map run_length rs) = length series
           \<and> concat (map expand_run rs) = series
           \<and> (length series = 1 \<longrightarrow> rs = [\<lparr>run_value = hd series, run_length = 1\<rparr>])
           \<and> (list_all (\<lambda>x. x = hd series) series \<longrightarrow>
                rs = [\<lparr>run_value = hd series, run_length = length series\<rparr>])"
proof -
  obtain x rest where series: "series = x # rest"
    using assms by (cases series) auto
  let ?c = "\<lparr>run_value = x, run_length = 0\<rparr>"
  let ?rs = "asruns_loop ?c series"
  have ret: "asruns series = Inr ?rs"
    by (simp add: asruns_def series)
  have pos: "list_all (\<lambda>r. 1 \<le> run_length r) ?rs"
    by (rule asruns_loop_positive) (simp add: series)
  have adj: "distinct_adj (map run_value ?rs)"
    by (rule asruns_loop_distinct_adj)
  have total: "sum_list (map run_length ?rs) = length series"
    by (simp only: asruns_loop_sum) simp
  have expand: "concat (map expand_run ?rs) = series"
    by (simp only: asruns_loop_expand) simp
  have uniform: "rs = [\<lparr>run_value = hd series, run_length = length series\<rparr>]"
    if "list_all (\<lambda>x. x = hd series) series" and "rs = ?rs" for rs
  proof -
    have "list_all (\<lambda>y. y = run_value ?c) series"
      using that(1) by (simp add: series)
    from asruns_loop_uniform [OF this] show ?thesis
      using that(2) by (simp add: series)
  qed
  have single: "rs = [\<lparr>run_value = hd series, run_length = 1\<rparr>]"
    if "length series = 1" and "rs = ?rs" for rs
    using that by (simp add: series)
  from ret pos adj total expand uniform single show ?thesis
    by blast
qed

theorem asruns_maximal_stretches_witness:
  "asruns [0, 0, 1, 0 :: nat] =
     Inr [\<lparr>run_value = 0, run_length = 2\<rparr>, \<lparr>run_value = 1, run_length = 1\<rparr>,
          \<lparr>run_value = 0, run_length = 1\<rparr>]
   \<and> sum_list (map run_length (projr (asruns [0, 0, 1, 0 :: nat]))) = 4"
  using asruns_maximal_stretches [of "[0, 0, 1, 0 :: nat]"]
  by (simp add: asruns_def)

section \<open>The runs test and degenerate proportions\<close>

lemma count_list_less_length:
  "other \<in> set xs \<Longrightarrow> other \<noteq> c \<Longrightarrow> count_list xs c < length xs"
proof (induction xs)
  case Nil
  then show ?case by simp
next
  case (Cons x xs)
  have le: "count_list xs c \<le> length xs" by (rule count_le_length)
  show ?case
  proof (cases "other = x")
    case True
    then show ?thesis using Cons.prems le by simp
  next
    case False
    then show ?thesis using Cons by auto
  qed
qed



text \<open>
  Outside the degenerate cases, that is for a series that holds the candidate and at
  least one other value, \<open>runs\<close> returns the number of runs as statistic and hands
  \<open>erfc\<close> a quotient whose divisor \<open>2 * sqrt(2n) * propcandidates * (1 - propcandidates)\<close>
  is strictly positive.
\<close>

lemma runs_nondegenerate:
  assumes cand: "candidate \<in> set series"
    and other: "other \<in> set series" "other \<noteq> candidate"
  shows "\<exists>rs. asruns series = Inr rs
           \<and> runs series candidate =
               Inr \<lparr>statistic = real (length rs),
                    p = Erfc \<bar>real (length rs) - 2 * real (count_list series candidate)
                                * (1 - real (count_list series candidate) / real (length series))\<bar>
                             (2 * sqrt (2 * real (length series))
                                * (real (count_list series candidate) / real (length series))
                                * (1 - real (count_list series candidate) / real (length series)))\<rparr>
           \<and> 0 < 2 * sqrt (2 * real (length series))
                    * (real (count_list series candidate) / real (length series))
                    * (1 - real (count_list series candidate) / real (length series))"
proof -
  let ?c = "count_list series candidate"
  let ?n = "length series"
  have pos: "0 < ?c" using cand count_list_0_iff [of series candidate] by auto
  have less: "?c < ?n" using other by (rule count_list_less_length)
  have npos: "0 < ?n" using less by (cases series) auto
  have ne: "series \<noteq> []" using cand by auto
  obtain rs where rs: "asruns series = Inr rs"
    using ne by (cases series) (auto simp: asruns_def)
  let ?ratio = "real ?c / real ?n"
  let ?a = "\<bar>real (length rs) - 2 * real ?c * (1 - ?ratio)\<bar>"
  let ?b = "2 * sqrt (2 * real ?n) * ?ratio * (1 - ?ratio)"
  have eq: "runs series candidate = Inr \<lparr>statistic = real (length rs), p = Erfc ?a ?b\<rparr>"
    using rs cand by (simp add: runs_def value_count_def Let_def)
  have f1: "0 < 2 * sqrt (2 * real ?n)" using npos by simp
  have f2: "0 < ?ratio" using pos npos by simp
  have f3: "0 < 1 - ?ratio" using less npos by simp
  have bpos: "0 < ?b" by (intro mult_pos_pos f1 f2 f3)
  from rs eq bpos show ?thesis by blast
qed



section \<open>The longest-run-in-block test: regime, length check and bins\<close>

text \<open>
  Claim C5. For every n of at least 128 the regime is the one of the table: blocksize
  8, 16 blocks and 4 bins below 6272; blocksize 128, 49 blocks and 6 bins from 6272 and
  below 750000; blocksize 10000, 75 blocks and 7 bins from 750000 on. The table of
  probabilities has an entry for the chosen blocksize, with one probability per bin. In
  particular 6271 and 749999 select the lower regimes, 6272 and 750000 the higher ones.
\<close>

theorem longest_runs_regime_table:
  assumes "128 \<le> n"
  shows "(\<exists>blocksize nblocks freqbinranges probs.
            select_regime n = Inr (blocksize, nblocks, freqbinranges)
          \<and> probabilities blocksize = Some probs
          \<and> length probs = length freqbinranges
          \<and> (blocksize, nblocks, length freqbinranges) =
              (if n < 6272 then (8, 16, 4)
               else if n < 750000 then (128, 49, 6)
               else (10000, 75, 7)))
       \<and> select_regime 6271 = Inr (8, 16, [1, 2, 3, 4])
       \<and> select_regime 6272 = Inr (128, 49, [4, 5, 6, 7, 8, 9])
       \<and> select_regime 749999 = Inr (128, 49, [4, 5, 6, 7, 8, 9])
       \<and> select_regime 750000 = Inr (10000, 75, [10, 11, 12, 13, 14, 15, 16])"
  using assms by (simp add: select_regime_def probabilities_def)

theorem longest_runs_regime_table_witness:
  "select_regime 128 = Inr (8, 16, [1, 2, 3, 4])
   \<and> select_regime 6272 = Inr (128, 49, [4, 5, 6, 7, 8, 9])
   \<and> (\<exists>probs. probabilities 8 = Some probs \<and> length probs = 4)"
  using longest_runs_regime_table [of 128]
  by (simp add: select_regime_def probabilities_def)

text \<open>
  Claim C6. For every series of fewer than 128 elements \<open>longest_runs\<close> raises at the
  length check, the first statement after taking the length (the source's bare
  \<open>ValueError\<close>, the insufficient-length error): nothing is computed and no result is
  returned.
\<close>

theorem longest_runs_insufficient_length:
  assumes "length series < 128"
  shows "longest_runs series candidate = Inl ValueError"
  using assms by (simp add: longest_runs_def select_regime_def)

theorem longest_runs_insufficient_length_witness:
  "longest_runs [0, 1, 1, 0 :: nat] 1 = Inl ValueError"
  using longest_runs_insufficient_length [of "[0, 1, 1, 0 :: nat]" 1]
  by simp

lemma freqbin_bottom: "len \<le> hd freqbinranges \<Longrightarrow> freqbin freqbinranges len = Some 0"
  by (simp add: freqbin_def)

lemma freqbin_intermediate:
  "freqbin [1, 2, 3, 4] 2 = Some 1 \<and> freqbin [1, 2, 3, 4] 3 = Some 2
   \<and> freqbin [4, 5, 6, 7, 8, 9] 5 = Some 1 \<and> freqbin [4, 5, 6, 7, 8, 9] 8 = Some 4
   \<and> freqbin [10, 11, 12, 13, 14, 15, 16] 11 = Some 1
   \<and> freqbin [10, 11, 12, 13, 14, 15, 16] 15 = Some 5"
  by (simp add: freqbin_def)

lemma freqbin_top:
  "hd freqbinranges < len \<Longrightarrow> last freqbinranges \<le> len \<Longrightarrow>
   freqbin freqbinranges len = Some (length freqbinranges)"
  by (simp add: freqbin_def Let_def)

lemma tally_top_index_error:
  "hd freqbinranges < len \<Longrightarrow> last freqbinranges \<le> len \<Longrightarrow>
   length freqbins \<le> length freqbinranges \<Longrightarrow>
   tally freqbinranges freqbins (len # rest) = Inl IndexError"
  by (simp add: freqbin_top)

text \<open>
  Claim C1 does not hold of the code. For a length at or above the highest boundary,
  \<open>freqbin\<close> returns the number of bins (\<open>len(freqbinranges)\<close>), one past the last bin,
  and the tallying loop raises \<open>IndexError\<close>. The series of 128 elements below, four
  1s followed by 0s, has the run 1 1 1 1 in its first block of 8: with candidate 1 the
  longest run is 4, the highest boundary of the regime, and the test raises.
\<close>

theorem longest_runs_top_bin_index_error:
  "freqbin [1, 2, 3, 4] 4 = Some 4
   \<and> tally [1, 2, 3, 4] [0, 0, 0, 0] [4] = Inl IndexError
   \<and> longest_runs (replicate 4 (1 :: nat) @ replicate 124 0) 1 = Inl IndexError"
proof (intro conjI)
  show "freqbin [1, 2, 3, 4] 4 = Some 4"
    by (simp add: freqbin_def)
  show "tally [1, 2, 3, 4] [0, 0, 0, 0] [4] = Inl IndexError"
    by (simp add: freqbin_def)
  show "longest_runs (replicate 4 (1 :: nat) @ replicate 124 0) 1 = Inl IndexError"
    by code_simp
qed

section \<open>Template matching: what the scans count\<close>

lemma window_matches_same_length:
  "length w = length t \<Longrightarrow> window_matches w t \<longleftrightarrow> w = t"
  by (induction w t rule: list_induct2) (auto simp: window_matches_def)

lemma window_at_length:
  "pointer + k \<le> length block_tup \<Longrightarrow> length (window_at block_tup pointer k) = k"
  by (simp add: window_at_def)

lemma window_at_butlast:
  "pointer + k < length block_tup \<Longrightarrow>
   window_at (butlast block_tup) pointer k = window_at block_tup pointer k"
  by (simp add: window_at_def butlast_conv_take drop_take min_def)

text \<open>With a non-empty template the scan of a block returns, from every state.\<close>

lemma nonoverlapping_scan_terminates:
  assumes "template_tup \<noteq> []"
  shows "\<exists>m. nonoverlapping_scan block_tup template_tup pointer matches = Some m"
proof (induction "length block_tup - pointer" arbitrary: pointer matches rule: less_induct)
  case less
  let ?k = "length template_tup"
  have k: "0 < ?k" using assms by simp
  show ?case
  proof (cases "int pointer < int (length block_tup) - int ?k")
    case False
    then show ?thesis by (subst nonoverlapping_scan.simps) simp
  next
    case True
    then have d1: "length block_tup - (pointer + ?k) < length block_tup - pointer"
      and d2: "length block_tup - (pointer + 1) < length block_tup - pointer"
      using k by linarith+
    from less [OF d1] less [OF d2] True show ?thesis
      by (subst nonoverlapping_scan.simps) simp
  qed
qed

text \<open>
  What the scan of the source computes: the greedy scan of the specification over the
  block without its last element. The start position \<open>blocksize - k\<close> is never tried.
\<close>

lemma nonoverlapping_scan_butlast:
  assumes "template_tup \<noteq> []" and "block_tup \<noteq> []"
  shows "nonoverlapping_scan block_tup template_tup pointer matches =
         greedy_scan_spec (butlast block_tup) template_tup pointer matches"
proof (induction "length block_tup - pointer" arbitrary: pointer matches rule: less_induct)
  case less
  let ?k = "length template_tup"
  have k: "0 < ?k" using assms by simp
  have len: "int (length (butlast block_tup)) = int (length block_tup) - 1"
    using assms(2) by (cases block_tup) auto
  show ?case
  proof (cases "int pointer < int (length block_tup) - int ?k")
    case False
    then have "\<not> int pointer \<le> int (length (butlast block_tup)) - int ?k"
      using len by linarith
    with False show ?thesis
      by (subst nonoverlapping_scan.simps, subst greedy_scan_spec.simps) simp
  next
    case True
    then have spec: "int pointer \<le> int (length (butlast block_tup)) - int ?k"
      using len by linarith
    from True have fit: "pointer + ?k < length block_tup" by linarith
    have d1: "length block_tup - (pointer + ?k) < length block_tup - pointer"
      and d2: "length block_tup - (pointer + 1) < length block_tup - pointer"
      using fit k by linarith+
    have win: "window_at (butlast block_tup) pointer ?k = window_at block_tup pointer ?k"
      using fit by (rule window_at_butlast)
    have "length (window_at block_tup pointer ?k) = ?k"
      using fit by (simp add: window_at_length)
    then have m: "window_matches (window_at block_tup pointer ?k) template_tup \<longleftrightarrow>
                  window_at block_tup pointer ?k = template_tup"
      by (rule window_matches_same_length)
    have lhs: "nonoverlapping_scan block_tup template_tup pointer matches =
          (if window_at block_tup pointer ?k = template_tup
           then nonoverlapping_scan block_tup template_tup (pointer + ?k) (matches + 1)
           else nonoverlapping_scan block_tup template_tup (pointer + 1) matches)"
      by (subst nonoverlapping_scan.simps) (simp only: True m if_True)
    have rhs: "greedy_scan_spec (butlast block_tup) template_tup pointer matches =
          (if window_at block_tup pointer ?k = template_tup
           then greedy_scan_spec (butlast block_tup) template_tup (pointer + ?k) (matches + 1)
           else greedy_scan_spec (butlast block_tup) template_tup (pointer + 1) matches)"
      by (subst greedy_scan_spec.simps) (simp only: spec win if_True)
    show ?thesis
      by (simp only: lhs rhs less [OF d1] less [OF d2])
  qed
qed

text \<open>
  Claim C2 does not hold of the code. The loop runs while \<open>pointer < boundary\<close> with
  \<open>boundary = len(block_tup) - template_size\<close>, so the last position at which the
  template fits is not tried. In the block 0 0 1 1 the template 1 1 occurs at position
  2, ending at the block's final element: the source counts 0 matches, the scan of the
  claim counts 1. The series of 288 elements made of 72 such blocks, cut into 72
  blocks, gets the count 0 for every block.
\<close>

theorem nonoverlapping_scan_skips_last_position:
  "nonoverlapping_scan [0, 0, 1, 1 :: nat] [1, 1] 0 0 = Some 0
   \<and> greedy_scan_spec [0, 0, 1, 1 :: nat] [1, 1] 0 0 = Some 1
   \<and> map_option (map_sum id (res_block_matches \<circ> snd))
        (non_overlapping_template_matching (\<lambda>series blocksize. blocks series (nat blocksize))
           (concat (replicate 72 [0, 0, 1, 1 :: nat])) [1, 1] 72)
      = Some (Inr (replicate 72 0))"
proof (intro conjI)
  show "nonoverlapping_scan [0, 0, 1, 1 :: nat] [1, 1] 0 0 = Some 0"
    by code_simp
  show "greedy_scan_spec [0, 0, 1, 1 :: nat] [1, 1] 0 0 = Some 1"
    by code_simp
  show "map_option (map_sum id (res_block_matches \<circ> snd))
        (non_overlapping_template_matching (\<lambda>series blocksize. blocks series (nat blocksize))
           (concat (replicate 72 [0, 0, 1, 1 :: nat])) [1, 1] 72)
      = Some (Inr (replicate 72 0))"
    by code_simp
qed

lemma fold_count:
  "fold (\<lambda>x m. if P x then m + 1 else m) xs (m0::nat) = m0 + length (filter P xs)"
  by (induction xs arbitrary: m0) auto

lemma overlapping_matches_filter:
  "overlapping_matches block_tup template_tup blocksize =
     length (filter (\<lambda>pointer. window_matches (window_at block_tup pointer (length template_tup)) template_tup)
               [0..<nat blocksize])"
  by (simp add: overlapping_matches_def fold_count)

lemma upt_split: "j \<le> n \<Longrightarrow> [0..<n] = [0..<j] @ [j..<n]"
  using upt_add_eq_append [of 0 j "n - j"] by simp

text \<open>
  What the overlapping scan of the source computes on a block of \<open>blocksize\<close> elements:
  the full matches, plus every tail position whose shortened window agrees with the
  first elements of the template.
\<close>

lemma overlapping_matches_tail:
  assumes k: "1 \<le> length template_tup" "length template_tup \<le> length block_tup"
  shows "overlapping_matches block_tup template_tup (int (length block_tup)) =
           full_matches_spec block_tup template_tup
           + length (filter (\<lambda>pointer. window_matches (drop pointer block_tup) template_tup)
                       [length block_tup - length template_tup + 1..<length block_tup])"
proof -
  let ?k = "length template_tup"
  let ?n = "length block_tup"
  let ?P = "\<lambda>pointer. window_matches (window_at block_tup pointer ?k) template_tup"
  have "?n - ?k + 1 \<le> ?n" using k by linarith
  then have split: "[0..<?n] = [0..<?n - ?k + 1] @ [?n - ?k + 1..<?n]"
    by (rule upt_split)
  have head: "filter ?P [0..<?n - ?k + 1] =
              filter (\<lambda>pointer. window_at block_tup pointer ?k = template_tup) [0..<?n - ?k + 1]"
  proof (rule filter_cong [OF refl])
    fix pointer assume "pointer \<in> set [0..<?n - ?k + 1]"
    then have "pointer + ?k \<le> ?n" using k by auto
    then have "length (window_at block_tup pointer ?k) = ?k" by (rule window_at_length)
    then show "?P pointer \<longleftrightarrow> window_at block_tup pointer ?k = template_tup"
      by (rule window_matches_same_length)
  qed
  have tail: "filter ?P [?n - ?k + 1..<?n] =
              filter (\<lambda>pointer. window_matches (drop pointer block_tup) template_tup) [?n - ?k + 1..<?n]"
  proof (rule filter_cong [OF refl])
    fix pointer assume "pointer \<in> set [?n - ?k + 1..<?n]"
    then have "length (drop pointer block_tup) \<le> ?k" using k by auto
    then have "window_at block_tup pointer ?k = drop pointer block_tup"
      by (simp add: window_at_def)
    then show "?P pointer \<longleftrightarrow> window_matches (drop pointer block_tup) template_tup" by simp
  qed
  have bound: "nat (int ?n - int ?k + 1) = ?n - ?k + 1" using k by linarith
  have "overlapping_matches block_tup template_tup (int ?n) = length (filter ?P [0..<?n])"
    by (simp only: overlapping_matches_filter nat_int)
  also have "\<dots> = length (filter ?P ([0..<?n - ?k + 1] @ [?n - ?k + 1..<?n]))"
    using split by (rule arg_cong)
  also have "\<dots> = length (filter ?P [0..<?n - ?k + 1]) + length (filter ?P [?n - ?k + 1..<?n])"
    by (simp only: filter_append length_append)
  also have "\<dots> = full_matches_spec block_tup template_tup
           + length (filter (\<lambda>pointer. window_matches (drop pointer block_tup) template_tup)
                       [?n - ?k + 1..<?n])"
    by (simp only: head tail full_matches_spec_def bound)
  finally show ?thesis .
qed

text \<open>
  Claim C3 does not hold of the code. The pointer runs over the whole \<open>range(blocksize)\<close>
  and \<open>zip\<close> cuts the comparison at the shorter window, so a tail window that agrees with
  the first elements of the template is counted. In the block 0 0 0 1 the template 1 1
  has no full match, and the source counts 1 (the window at position 3 is the single
  element 1). The series 0 0 0 1 0 0 0 1 in 2 blocks gets the count 1 for both blocks.
\<close>

theorem overlapping_counts_short_tail_window:
  "overlapping_matches [0, 0, 0, 1 :: nat] [1, 1] 4 = 1
   \<and> full_matches_spec [0, 0, 0, 1 :: nat] [1, 1] = 0
   \<and> overlapping_block_matches (\<lambda>series blocksize. blocks series (nat blocksize))
        [0, 0, 0, 1, 0, 0, 0, 1 :: nat] [1, 1] 2 = Inr [1, 1]"
proof (intro conjI)
  show "overlapping_matches [0, 0, 0, 1 :: nat] [1, 1] 4 = 1"
    by code_simp
  show "full_matches_spec [0, 0, 0, 1 :: nat] [1, 1] = 0"
    by code_simp
  show "overlapping_block_matches (\<lambda>series blocksize. blocks series (nat blocksize))
        [0, 0, 0, 1, 0, 0, 0, 1 :: nat] [1, 1] 2 = Inr [1, 1]"
    by code_simp
qed

section \<open>Recommendations\<close>

text \<open>The warnings issued are the failing entries, in order, and only those.\<close>

lemma issue_warnings_failing:
  "issue_warnings recs =
     map (\<lambda>rec. ''Input parameters fail recommendation '' @ rec)
         (map fst (filter (\<lambda>entry. \<not> snd entry) recs))"
  by (induction recs) (auto simp: issue_warnings_def)

text \<open>
  With a blocksize other than 0 the recommendations of
  \<open>non_overlapping_template_matching\<close> are evaluated without an error, and the result is
  the one of the statistics alone, with the warnings beside it.
\<close>

lemma non_overlapping_recommendations_soft:
  assumes "py_floordiv (int (length series)) nblocks = Inr blocksize" and "blocksize \<noteq> 0"
  shows "\<exists>recs. recommendations (int (length series)) nblocks blocksize = Inr recs
           \<and> non_overlapping_template_matching rawblocks series template_tup nblocks =
               map_option (map_sum id (Pair (issue_warnings recs)))
                 (nonoverlapping_statistics (rawblocks series blocksize) template_tup
                    nblocks blocksize)"
  using assms
  by (auto simp: non_overlapping_template_matching_def recommendations_def py_floordiv_def
           split: option.splits sum.splits)

lemma spectral_failures_attached:
  "spectral series0 heads tails = Inr r \<Longrightarrow>
   spec_failures r =
     (if 1000 \<le> length series0 then []
      else [''n '' @ [CHR 0xE2, CHR 0x89, CHR 0xA5] @ '' 1000''])"
  by (auto simp: spectral_def check_recommendations_def Let_def split: if_splits)

text \<open>
  Claim C7 does not hold of the code. The third recommendation of
  \<open>non_overlapping_template_matching\<close> is written \<open>nblocks == n // blocksize\<close>; when
  \<open>nblocks\<close> exceeds the length of the series, \<open>blocksize = n // nblocks\<close> is 0 and building
  the dictionary of recommendations raises \<open>ZeroDivisionError\<close>, before any warning is
  issued and whatever function cuts the blocks. Here: a series of 288 elements and 289
  blocks.
\<close>

theorem non_overlapping_recommendation_raises:
  "non_overlapping_template_matching rawblocks
     (replicate 144 (0 :: nat) @ replicate 144 1) [1] 289 = Some (Inl ZeroDivisionError)"
  by (simp add: non_overlapping_template_matching_def py_floordiv_def recommendations_def)

section \<open>The spectral test on a series of odd length\<close>

lemma nunique_two_other:
  assumes "nunique xs = 2"
  shows "\<exists>v. find (\<lambda>v. v \<noteq> c) xs = Some v"
proof (rule ccontr)
  assume "\<not> (\<exists>v. find (\<lambda>v. v \<noteq> c) xs = Some v)"
  then have "find (\<lambda>v. v \<noteq> c) xs = None" by (cases "find (\<lambda>v. v \<noteq> c) xs") auto
  then have "set xs \<subseteq> {c}" by (auto simp: find_None_iff)
  then have "card (set xs) \<le> card {c}" by (intro card_mono) auto
  then have "length (remdups xs) \<le> 1" by (simp add: length_remdups_card_conv)
  then show False using assms by (simp add: nunique_def)
qed

lemma length_those: "those xs = Some ys \<Longrightarrow> length ys = length xs"
  by (induction xs arbitrary: ys) (auto split: option.splits)

lemma length_fft: "length (fft array) = length array"
  by (simp add: fft_def dft_def length_those split: option.splits)

lemma odd_length_facts:
  fixes n :: nat
  assumes "odd n"
  shows "n div 2 = (n - 1) div 2"
    and "sqrt (ln 20 * real n) \<noteq> sqrt (ln 20 * real (n - 1))"
    and "0.95 * real n / 2 \<noteq> 0.95 * real (n - 1) / 2"
proof -
  have pos: "0 < n" using assms by (cases n) auto
  show "n div 2 = (n - 1) div 2" using assms by presburger
  have ln: "0 < ln (20::real)" by simp
  have "real n \<noteq> real (n - 1)" using pos by simp
  then have "ln 20 * real n \<noteq> ln 20 * real (n - 1)" using ln by simp
  then show "sqrt (ln 20 * real n) \<noteq> sqrt (ln 20 * real (n - 1))" by simp
  show "0.95 * real n / 2 \<noteq> 0.95 * real (n - 1) / 2" using pos by simp
qed

lemma spectral_odd:
  assumes odd: "odd (length series0)" and bin: "nunique (butlast series0) = 2"
  shows "\<exists>r. spectral series0 heads tails = Inr r
     \<and> spec_nbelow_expect r = 0.95 * real (length series0) / 2
     \<and> spec_nbelow r =
         count_below (sqrt (ln 20 * real (length series0)))
           (map (map_option cmod)
              (take (length series0 div 2)
                 (fft (map [heads \<mapsto> 1, tails \<mapsto> - 1] (butlast series0)))))
     \<and> length series0 div 2 =
         length (fft (map [heads \<mapsto> 1, tails \<mapsto> - 1] (butlast series0))) div 2"
proof -
  have "butlast series0 \<noteq> []" using bin by (auto simp: nunique_def)
  then show ?thesis
    using odd bin odd_length_facts(1) [OF odd]
    by (simp add: spectral_def Let_def length_fft odd_iff_mod_2_eq_one)
qed

lemma discrete_fourier_transform_odd:
  assumes odd: "odd (length series0)" and bin: "nunique (butlast series0) = 2"
  shows "\<exists>r trough. find (\<lambda>v. v \<noteq> candidate) (butlast series0) = Some trough
     \<and> discrete_fourier_transform series0 candidate = Inr r
     \<and> dft_nbelow_expected r = 0.95 * real (length series0) / 2
     \<and> dft_nbelow r =
         count_below (sqrt (ln 20 * real (length series0)))
           (map (map_option cmod)
              (take (length series0 div 2)
                 (fft (map [candidate \<mapsto> 1, trough \<mapsto> - 1] (butlast series0)))))
     \<and> length series0 div 2 =
         length (fft (map [candidate \<mapsto> 1, trough \<mapsto> - 1] (butlast series0))) div 2"
proof -
  obtain trough where t: "find (\<lambda>v. v \<noteq> candidate) (butlast series0) = Some trough"
    using nunique_two_other [OF bin] by blast
  have "butlast series0 \<noteq> []" using bin by (auto simp: nunique_def)
  then show ?thesis
    using odd bin t odd_length_facts(1) [OF odd]
    by (simp add: discrete_fourier_transform_def Let_def length_fft odd_iff_mod_2_eq_one)
qed

text \<open>
  Claim C10. For a series of odd length n whose truncation is binary, both versions of
  the spectral test return a result in which the expected count is \<open>0.95 * n / 2\<close> and
  the peaks are counted below the threshold \<open>sqrt(ln(20) * n)\<close>, with n the original odd
  length; the transform is taken of the series without its last element, and the
  \<open>n // 2\<close> entries kept are exactly half of that transform. The threshold and the
  expected count differ from the ones the truncated length n - 1 would give.
\<close>

theorem spectral_odd_length_uses_original_n:
  assumes odd: "odd (length series0)" and bin: "nunique (butlast series0) = 2"
  shows "(\<exists>r. spectral series0 heads tails = Inr r
           \<and> spec_nbelow_expect r = 0.95 * real (length series0) / 2
           \<and> spec_nbelow r =
               count_below (sqrt (ln 20 * real (length series0)))
                 (map (map_option cmod)
                    (take (length series0 div 2)
                       (fft (map [heads \<mapsto> 1, tails \<mapsto> - 1] (butlast series0)))))
           \<and> length series0 div 2 =
               length (fft (map [heads \<mapsto> 1, tails \<mapsto> - 1] (butlast series0))) div 2)
       \<and> (\<exists>r trough. find (\<lambda>v. v \<noteq> candidate) (butlast series0) = Some trough
           \<and> discrete_fourier_transform series0 candidate = Inr r
           \<and> dft_nbelow_expected r = 0.95 * real (length series0) / 2
           \<and> dft_nbelow r =
               count_below (sqrt (ln 20 * real (length series0)))
                 (map (map_option cmod)
                    (take (length series0 div 2)
                       (fft (map [candidate \<mapsto> 1, trough \<mapsto> - 1] (butlast series0)))))
           \<and> length series0 div 2 =
               length (fft (map [candidate \<mapsto> 1, trough \<mapsto> - 1] (butlast series0))) div 2)
       \<and> sqrt (ln 20 * real (length series0)) \<noteq> sqrt (ln 20 * real (length (butlast series0)))
       \<and> 0.95 * real (length series0) / 2 \<noteq> 0.95 * real (length (butlast series0)) / 2"
proof (intro conjI)
  show "\<exists>r. spectral series0 heads tails = Inr r
           \<and> spec_nbelow_expect r = 0.95 * real (length series0) / 2
           \<and> spec_nbelow r =
               count_below (sqrt (ln 20 * real (length series0)))
                 (map (map_option cmod)
                    (take (length series0 div 2)
                       (fft (map [heads \<mapsto> 1, tails \<mapsto> - 1] (butlast series0)))))
           \<and> length series0 div 2 =
               length (fft (map [heads \<mapsto> 1, tails \<mapsto> - 1] (butlast series0))) div 2"
    using odd bin by (rule spectral_odd)
  show "\<exists>r trough. find (\<lambda>v. v \<noteq> candidate) (butlast series0) = Some trough
           \<and> discrete_fourier_transform series0 candidate = Inr r
           \<and> dft_nbelow_expected r = 0.95 * real (length series0) / 2
           \<and> dft_nbelow r =
               count_below (sqrt (ln 20 * real (length series0)))
                 (map (map_option cmod)
                    (take (length series0 div 2)
                       (fft (map [candidate \<mapsto> 1, trough \<mapsto> - 1] (butlast series0)))))
           \<and> length series0 div 2 =
               length (fft (map [candidate \<mapsto> 1, trough \<mapsto> - 1] (butlast series0))) div 2"
    using odd bin by (rule discrete_fourier_transform_odd)
  show "sqrt (ln 20 * real (length series0)) \<noteq> sqrt (ln 20 * real (length (butlast series0)))"
    unfolding length_butlast by (rule odd_length_facts(2) [OF odd])
  show "0.95 * real (length series0) / 2 \<noteq> 0.95 * real (length (butlast series0)) / 2"
    unfolding length_butlast by (rule odd_length_facts(3) [OF odd])
qed

theorem spectral_odd_length_uses_original_n_witness:
  "(\<exists>r. spectral [1, 0, 1 :: nat] 1 0 = Inr r \<and> spec_nbelow_expect r = 0.95 * 3 / 2)
   \<and> (\<exists>r. discrete_fourier_transform [1, 0, 1 :: nat] 1 = Inr r
          \<and> dft_nbelow_expected r = 0.95 * 3 / 2)"
  using spectral_odd_length_uses_original_n [of "[1, 0, 1 :: nat]" 1 0 1]
  by (auto simp: nunique_def)

section \<open>The range of p\<close>

text \<open>On its domain a symbolic call has a finite value in [0, 1].\<close>

lemma quotients_nonneg:
  "list_all (\<lambda>(dividend, divisor). 0 \<le> dividend \<and> 0 < divisor) terms \<Longrightarrow>
   finite_quotients terms
   \<and> 0 \<le> sum_list (map (\<lambda>(dividend, divisor). dividend / divisor) terms)"
  by (induction terms) (auto simp: finite_quotients_def)

lemma p_value_in_unit_interval:
  assumes "erfc_range erfc" and "gammaincc_range gammaincc" and "unit_domain s"
  shows "finite_p s \<and> 0 \<le> p_value erfc gammaincc s \<and> p_value erfc gammaincc s \<le> 1"
proof (cases s)
  case (Erfc a b)
  then have "0 \<le> a / b" and "b \<noteq> 0" using assms(3) by simp_all
  then show ?thesis using assms(1) Erfc by (simp add: erfc_range_def)
next
  case (Gammaincc a x)
  then show ?thesis using assms(2,3) by (simp add: gammaincc_range_def)
next
  case (GammainccSum a terms)
  then have a: "0 < a"
    and t: "list_all (\<lambda>(dividend, divisor). 0 \<le> dividend \<and> 0 < divisor) terms"
    using assms(3) by simp_all
  from quotients_nonneg [OF t] a assms(2) show ?thesis
    using GammainccSum by (simp add: gammaincc_range_def)
qed

text \<open>
  The runs test on a series with the candidate and another value, both versions of the
  spectral test on a series that is binary after the truncation, the longest-run test
  whenever it returns a result, and the non-overlapping template matching test with a
  positive number of blocks whenever it returns a result: the call that gives p is
  on its domain.
\<close>

lemma two_k_minus_one_le: "2 * real k - 1 \<le> 2 ^ k"
proof (induction k)
  case 0
  show ?case by simp
next
  case (Suc k)
  show ?case
  proof (cases k)
    case 0
    then show ?thesis by simp
  next
    case (Suc j)
    then have "(2::real) \<le> 2 ^ k" by simp
    with Suc.IH show ?thesis by simp
  qed
qed

lemma variance_factor_nonneg:
  "0 \<le> 1 / 2 ^ k - (2 * real k - 1) / 2 ^ (2 * k)"
proof -
  have "(2 * real k - 1) / 2 ^ (2 * k) \<le> 2 ^ k / 2 ^ (2 * k)"
    using two_k_minus_one_le [of k] by (simp add: divide_right_mono)
  also have "\<dots> = 1 / (2::real) ^ k"
    by (simp add: power2_eq_square power_mult power_even_eq mult_2 power_add)
  finally show ?thesis by simp
qed

lemma sum_squares_over_nonneg:
  "0 \<le> v \<Longrightarrow> 0 \<le> sum_list (map (\<lambda>d. d\<^sup>2 / v) (ds :: real list))"
  by (rule sum_list_nonneg) auto

lemma chi_partials_nonneg:
  "list_all (\<lambda>prob. 0 \<le> prob) probs \<Longrightarrow>
   0 \<le> sum_list (map (\<lambda>(prob, bincount). (real bincount - real nb * prob)\<^sup>2 / (real nb * prob))
                    (zip probs bins))"
proof (rule sum_list_nonneg)
  fix x
  assume all: "list_all (\<lambda>prob. 0 \<le> prob) probs"
    and x: "x \<in> set (map (\<lambda>(prob, bincount). (real bincount - real nb * prob)\<^sup>2 / (real nb * prob))
                    (zip probs bins))"
  then obtain prob bincount where pb: "(prob, bincount) \<in> set (zip probs bins)"
    and xe: "x = (real bincount - real nb * prob)\<^sup>2 / (real nb * prob)" by auto
  from pb have "prob \<in> set probs" by (rule set_zip_leftD)
  then have "0 \<le> prob" using all by (simp add: list_all_iff)
  then show "0 \<le> x" unfolding xe by simp
qed


lemma runs_p_domain:
  assumes cand: "candidate \<in> set series"
    and other: "other \<in> set series" "other \<noteq> candidate"
  shows "\<exists>r. runs series candidate = Inr r \<and> unit_domain (p r)"
  using runs_nondegenerate [OF cand other]
  by (elim exE conjE) simp

lemma spectral_p_domain:
  assumes bin: "nunique (if odd (length series0) then butlast series0 else series0) = 2"
  shows "\<exists>r. spectral series0 heads tails = Inr r \<and> unit_domain (p r)"
proof -
  have ne: "(if odd (length series0) then butlast series0 else series0) \<noteq> []"
    using bin by (auto simp: nunique_def)
  show ?thesis
    using bin ne
    by (auto simp: spectral_def Let_def odd_iff_mod_2_eq_one split: if_splits)
qed

lemma discrete_fourier_transform_p_domain:
  assumes bin: "nunique (if odd (length series0) then butlast series0 else series0) = 2"
  shows "\<exists>r. discrete_fourier_transform series0 candidate = Inr r \<and> unit_domain (p r)"
proof -
  let ?series = "if odd (length series0) then butlast series0 else series0"
  have ne: "?series \<noteq> []"
    using bin by (auto simp: nunique_def)
  obtain trough where t: "find (\<lambda>v. v \<noteq> candidate) ?series = Some trough"
    using nunique_two_other [OF bin] by blast
  show ?thesis
    using bin ne t
    by (auto simp: discrete_fourier_transform_def Let_def odd_iff_mod_2_eq_one split: if_splits)
qed

lemma longest_runs_p_domain:
  assumes ret: "longest_runs series candidate = Inr r"
  shows "unit_domain (p r)"
proof -
  from ret obtain blocksize nblocks ranges probs freqbins where
    reg: "select_regime (length series) = Inr (blocksize, nblocks, ranges)"
    and pr: "probabilities blocksize = Some probs"
    and r: "p r = Gammaincc ((real (length ranges) - 1) / 2)
              (sum_list (map (\<lambda>(prob, bincount).
                  (real bincount - real nblocks * prob)\<^sup>2 / (real nblocks * prob))
                (zip probs freqbins)) / 2)"
    by (auto simp: longest_runs_def Let_def split: sum.splits option.splits prod.splits)
  from reg pr have probs: "list_all (\<lambda>prob. 0 \<le> prob) probs" and df: "2 \<le> length ranges"
    by (auto simp: select_regime_def probabilities_def split: if_splits)
  have a: "0 < (real (length ranges) - 1) / 2" using df by simp
  have x: "0 \<le> sum_list (map (\<lambda>(prob, bincount).
                  (real bincount - real nblocks * prob)\<^sup>2 / (real nblocks * prob))
                (zip probs freqbins)) / 2"
    using chi_partials_nonneg [OF probs, of nblocks freqbins] by simp
  from a x show ?thesis
    unfolding r by simp
qed

lemma nonoverlapping_statistics_p_domain:
  assumes nblocks: "0 < nblocks" and blocksize: "0 \<le> blocksize"
    and ret: "nonoverlapping_statistics block_tups template_tup nblocks blocksize = Some (Inr r)"
  shows "unit_domain (p r)"
proof -
  let ?k = "length template_tup"
  let ?e = "(real_of_int blocksize - real ?k + 1) / 2 ^ ?k"
  let ?v = "real_of_int blocksize * (1 / 2 ^ ?k - (2 * real ?k - 1) / 2 ^ (2 * ?k))"
  from ret obtain block_matches where
    bm: "those (map (\<lambda>block_tup. nonoverlapping_scan block_tup template_tup 0 0) block_tups)
           = Some block_matches"
    by (auto simp: nonoverlapping_statistics_def Let_def split: option.splits)
  let ?diffs = "map (\<lambda>matches. real matches - ?e) block_matches"
  from ret bm have r: "p r = Gammaincc (real_of_int nblocks / 2)
                         (sum_list (map (\<lambda>diff. diff\<^sup>2 / ?v) ?diffs) / 2)"
    by (auto simp: nonoverlapping_statistics_def Let_def split: if_splits)
  have v: "0 \<le> ?v"
    using blocksize variance_factor_nonneg [of ?k] by simp
  have a: "0 < real_of_int nblocks / 2" using nblocks by simp
  have x: "0 \<le> sum_list (map (\<lambda>diff. diff\<^sup>2 / ?v) ?diffs) / 2"
    using sum_squares_over_nonneg [OF v, of ?diffs] by simp
  from a x show ?thesis
    unfolding r by simp
qed

lemma non_overlapping_p_domain:
  assumes nblocks: "0 < nblocks"
    and ret: "non_overlapping_template_matching rawblocks series template_tup nblocks =
                Some (Inr (warnings, r))"
  shows "unit_domain (p r)"
proof -
  let ?blocksize = "int (length series) div nblocks"
  have b: "0 \<le> ?blocksize" using nblocks by (simp add: pos_imp_zdiv_nonneg_iff)
  from ret nblocks have
    "nonoverlapping_statistics (rawblocks series ?blocksize) template_tup nblocks ?blocksize
       = Some (Inr r)"
    by (auto simp: non_overlapping_template_matching_def py_floordiv_def Let_def
          split: sum.splits option.splits if_splits)
  with nblocks b show ?thesis by (rule nonoverlapping_statistics_p_domain)
qed

lemma upt_six: "[0..<6] = [0, 1, 2, 3, 4, 5]"
  by code_simp

lemma overlapping_probabilities_zero_rate:
  "overlapping_probabilities hyp1f1 3 4 = [0, 0, 0, 0, 0, 0]"
  by (simp add: overlapping_probabilities_def upt_six)

lemma overlapping_zero_rate_tallies:
  "overlapping_tallies
     (map (\<lambda>block_tup. overlapping_matches block_tup [0, 0, 0, 0] 3)
        (blocks [0, 1, 0, 1, 0, 1, 0, 1, 0, 1, 0, 1, 0, 1, 0, 1, 0, 1, 0, 1, 0, 1, 0, 1 :: nat] 3))
   = [4, 4, 0, 0, 0, 0]"
  by code_simp

lemma default_template_Cons:
  "series = v # rest \<Longrightarrow>
   default_template series = replicate (min (nat \<lfloor>sqrt (real (length series))\<rfloor>) 9) v"
  by (simp add: default_template_def)

lemma floor_sqrt_24: "\<lfloor>sqrt 24\<rfloor> = 4"
proof -
  have "4 \<le> sqrt 24" by (rule real_le_rsqrt) simp
  moreover have "sqrt 24 < 5" by (rule real_less_lsqrt) simp_all
  ultimately show ?thesis by (simp add: floor_eq_iff)
qed

text \<open>
  Claim C8 does not hold of the code. For the overlapping template matching test,
  nothing keeps the template within the block. On the binary series 0 1 0 1 ... of 24
  elements with the default template and the default 8 blocks, the template has 4
  elements and a block 3, the rate \<open>lambda_\<close> is \<open>(3 - 4 + 1) / 2 ** 4 = 0\<close> and every
  reference probability is 0 whatever \<open>hyp1f1\<close> returns. Every quotient of the
  statistic has the divisor \<open>nblocks * probability = 0\<close>, and for the four bins with
  tally 0 the quotient is 0 / 0: the statistic and p are NaN, not a number of [0, 1].
\<close>

theorem overlapping_zero_expected_counts:
  "default_template [0, 1, 0, 1, 0, 1, 0, 1, 0, 1, 0, 1, 0, 1, 0, 1, 0, 1, 0, 1, 0, 1, 0, 1 :: nat]
     = [0, 0, 0, 0]
   \<and> overlapping_template_matching hyp1f1 (\<lambda>series blocksize. blocks series (nat blocksize))
       [0, 1, 0, 1, 0, 1, 0, 1, 0, 1, 0, 1, 0, 1, 0, 1, 0, 1, 0, 1, 0, 1, 0, 1 :: nat]
       [0, 0, 0, 0] 8
     = Inr \<lparr>ov_statistic = [(16, 0), (16, 0), (0, 0), (0, 0), (0, 0), (0, 0)],
            ov_p = GammainccSum (5 / 2) [(16, 0), (16, 0), (0, 0), (0, 0), (0, 0), (0, 0)]\<rparr>"
proof (rule conjI)
  define S where "S = [0, 1, 0, 1, 0, 1, 0, 1, 0, 1, 0, 1, 0, 1, 0, 1, 0, 1, 0, 1, 0, 1, 0, 1 :: nat]"
  define T where "T = [0, 0, 0, 0 :: nat]"
  have len: "real (length S) = 24"
    unfolding S_def by simp
  have hd: "S = 0 # tl S"
    unfolding S_def by simp
  have "default_template S = replicate (min (nat \<lfloor>sqrt (real (length S))\<rfloor>) 9) 0"
    using hd by (rule default_template_Cons)
  also have "\<dots> = replicate 4 0"
    by (simp add: len floor_sqrt_24)
  also have "\<dots> = [0, 0, 0, 0]"
    by code_simp
  finally show "default_template
      [0, 1, 0, 1, 0, 1, 0, 1, 0, 1, 0, 1, 0, 1, 0, 1, 0, 1, 0, 1, 0, 1, 0, 1 :: nat] = [0, 0, 0, 0]"
    unfolding S_def .
  have fd: "py_floordiv (int (length S)) 8 = Inr 3"
    unfolding S_def by (simp add: py_floordiv_def)
  have lt: "length T = 4"
    unfolding T_def by simp
  have tl: "overlapping_tallies
     (map (\<lambda>block_tup. overlapping_matches block_tup T 3) (blocks S 3)) = [4, 4, 0, 0, 0, 0]"
    unfolding S_def T_def by (rule overlapping_zero_rate_tallies)
  have "overlapping_template_matching hyp1f1 (\<lambda>series blocksize. blocks series (nat blocksize))
          S T 8
   = Inr \<lparr>ov_statistic = [(16, 0), (16, 0), (0, 0), (0, 0), (0, 0), (0, 0)],
          ov_p = GammainccSum (5 / 2) [(16, 0), (16, 0), (0, 0), (0, 0), (0, 0), (0, 0)]\<rparr>"
    by (simp add: overlapping_template_matching_def fd lt tl overlapping_probabilities_zero_rate
          Let_def)
  then show "overlapping_template_matching hyp1f1
       (\<lambda>series blocksize. blocks series (nat blocksize))
       [0, 1, 0, 1, 0, 1, 0, 1, 0, 1, 0, 1, 0, 1, 0, 1, 0, 1, 0, 1, 0, 1, 0, 1 :: nat]
       [0, 0, 0, 0] 8
     = Inr \<lparr>ov_statistic = [(16, 0), (16, 0), (0, 0), (0, 0), (0, 0), (0, 0)],
            ov_p = GammainccSum (5 / 2) [(16, 0), (16, 0), (0, 0), (0, 0), (0, 0), (0, 0)]\<rparr>"
    unfolding S_def T_def .
qed

end
